theory Spec2Isabelle
  imports Complex_Main
begin

section \<open>Python strings\<close>

text \<open>
  A Python \<open>str\<close> is a sequence of code points; it is modelled as a \<open>string\<close> whose
  characters are the code points below 256, so \<open>length\<close> counts what Python's \<open>len\<close>
  counts. The character classes are those of Python 3 on that range.
\<close>

definition code :: "char \<Rightarrow> nat" where
  "code c = of_char c"

definition isspace :: "char \<Rightarrow> bool" where
  \<comment> \<open>\<open>str.isspace\<close>: TAB..CR, FS..US, space, NEL, NBSP.\<close>
  "isspace c = ((9 \<le> code c \<and> code c \<le> 13) \<or> (28 \<le> code c \<and> code c \<le> 32)
                \<or> code c = 133 \<or> code c = 160)"

definition isalnum_char :: "char \<Rightarrow> bool" where
  \<comment> \<open>\<open>str.isalnum\<close> on one character: alphabetic, decimal, digit or numeric.\<close>
  "isalnum_char c =
     ((48 \<le> code c \<and> code c \<le> 57) \<or> (65 \<le> code c \<and> code c \<le> 90)
      \<or> (97 \<le> code c \<and> code c \<le> 122)
      \<or> code c \<in> {170, 178, 179, 181, 185, 186, 188, 189, 190}
      \<or> (192 \<le> code c \<and> code c \<le> 255 \<and> code c \<noteq> 215 \<and> code c \<noteq> 247))"

definition isalnum :: "string \<Rightarrow> bool" where
  \<comment> \<open>\<open>str.isalnum\<close>: false on the empty string.\<close>
  "isalnum s = (s \<noteq> [] \<and> list_all isalnum_char s)"

definition strip :: "string \<Rightarrow> string" where
  \<comment> \<open>\<open>str.strip()\<close>: whitespace removed at both ends.\<close>
  "strip s = rev (dropWhile isspace (rev (dropWhile isspace s)))"

definition replace :: "char \<Rightarrow> string \<Rightarrow> string \<Rightarrow> string" where
  \<comment> \<open>\<open>s.replace(old, new)\<close> for a one-character \<open>old\<close>.\<close>
  "replace old new s = concat (map (\<lambda>c. if c = old then new else [c]) s)"

definition truthy :: "string option \<Rightarrow> bool" where
  \<comment> \<open>Truth value of an optional string: \<open>None\<close> and \<open>''\<close> are false.\<close>
  "truthy v = (case v of None \<Rightarrow> False | Some s \<Rightarrow> s \<noteq> [])"

definition or_None :: "string \<Rightarrow> string option" where
  \<comment> \<open>\<open>s or None\<close>\<close>
  "or_None s = (if s = [] then None else Some s)"

section \<open>The database (\<open>DatabaseManager.init_database\<close>)\<close>

text \<open>
  One record per table row, one list per table in insertion order. Columns that only ever
  hold their declared default and are never read by the service are left out
  (\<open>profile_picture\<close>, \<open>is_verified\<close>, \<open>verification_score\<close>,
  \<open>view_count\<close>, \<open>confidence_score\<close>, \<open>verification_count\<close>, \<open>is_offensive\<close>, the
  \<open>CURRENT_TIMESTAMP\<close> columns of the two logging tables and the columns of \<open>analytics\<close>
  that \<open>log_event\<close> never fills). Timestamps are points of a clock, as natural numbers.
\<close>

record user =
  uid :: nat
  username :: string
  password :: string
  preferred_language :: string
  full_name :: "string option"
  email :: "string option"
  age :: "int option"
  created_at :: nat
  last_login :: "nat option"
  is_active :: bool

record image_kwargs =
  latitude :: "real option"
  longitude :: "real option"
  city :: "string option"
  country :: "string option"
  location_method :: "string option"
  file_size :: "int option"
  image_width :: "int option"
  image_height :: "int option"

record image =
  img_id :: string
  title :: string
  description :: "string option"
  category :: string
  image_path :: string
  uploaded_by :: string
  uploaded_at :: nat
  meta :: image_kwargs
  label_count :: nat

record label =
  label_id :: nat
  image_id :: string
  label_text :: string
  language :: string
  added_by :: string
  added_at :: nat

datatype json = JNull | JBool bool | JInt int | JStr string

record event =
  event_id :: nat
  event_type :: string
  event_user :: "string option"
  metadata :: "(string \<times> json) list option"

record activity =
  activity_id :: nat
  user_id :: string
  activity_type :: string
  activity_description :: string
  points_earned :: int

record database =
  users :: "user list"
  images :: "image list"
  labels :: "label list"
  analytics :: "event list"
  user_activities :: "activity list"
  seq_users :: nat
  seq_labels :: nat
  seq_analytics :: nat
  seq_activities :: nat

definition empty_database :: database where
  "empty_database = \<lparr>users = [], images = [], labels = [], analytics = [],
     user_activities = [], seq_users = 0, seq_labels = 0, seq_analytics = 0,
     seq_activities = 0\<rparr>"

datatype error = OperationalError string | IntegrityError string

fun str_error :: "error \<Rightarrow> string" where
  "str_error (OperationalError m) = m"
| "str_error (IntegrityError m) = m"

text \<open>
  The world of the service: the database file, the image files that exist on disk, and the
  outcome of each coming \<open>sqlite3\<close> connection, in order (\<open>Some m\<close>: the work on that
  connection raises \<open>OperationalError(m)\<close> before anything is committed; past the end of
  the list every connection works).
\<close>

record world =
  db :: database
  files :: "string set"
  faults :: "string option list"

text \<open>
  A connection carries its own \<open>foreign_keys\<close> setting. SQLite keeps that pragma per
  connection and starts every connection with it off; \<open>get_connection\<close> sets nothing.
\<close>

record connection =
  foreign_keys :: bool

definition get_connection :: "world \<Rightarrow> (error + connection) \<times> world" where
  "get_connection w =
     (case faults w of
        [] \<Rightarrow> (Inr \<lparr>foreign_keys = False\<rparr>, w)
      | None # fs \<Rightarrow> (Inr \<lparr>foreign_keys = False\<rparr>, w\<lparr>faults := fs\<rparr>)
      | Some m # fs \<Rightarrow> (Inl (OperationalError m), w\<lparr>faults := fs\<rparr>))"

definition init_database :: "world \<Rightarrow> (error + connection) \<times> world" where
  \<comment> \<open>The tables exist in every \<open>database\<close> value, so \<open>CREATE TABLE IF NOT EXISTS\<close> changes
      nothing; \<open>PRAGMA foreign_keys=ON\<close> changes the connection of this call, which is
      closed on return.\<close>
  "init_database w =
     (case get_connection w of
        (Inl e, w1) \<Rightarrow> (Inl e, w1)
      | (Inr conn, w1) \<Rightarrow> (Inr (conn\<lparr>foreign_keys := True\<rparr>), w1))"

subsection \<open>Statements\<close>

definition insert_user ::
  "connection \<Rightarrow> string \<Rightarrow> string \<Rightarrow> string \<Rightarrow> string option \<Rightarrow> string option \<Rightarrow>
   int option \<Rightarrow> nat \<Rightarrow> database \<Rightarrow> error + database" where
  \<comment> \<open>\<open>INSERT INTO users\<close>: \<open>username\<close> is \<open>UNIQUE\<close>.\<close>
  "insert_user conn u p lang fn em ag now d =
     (if u \<in> set (map username (users d))
      then Inl (IntegrityError ''UNIQUE constraint failed: users.username'')
      else Inr (d\<lparr>users := users d @ [\<lparr>uid = Suc (seq_users d), username = u, password = p,
                     preferred_language = lang, full_name = fn, email = em, age = ag,
                     created_at = now, last_login = None, is_active = True\<rparr>],
                   seq_users := Suc (seq_users d)\<rparr>))"

definition insert_analytics ::
  "string \<Rightarrow> string option \<Rightarrow> (string \<times> json) list option \<Rightarrow> database \<Rightarrow> database" where
  "insert_analytics et u md d =
     d\<lparr>analytics := analytics d @ [\<lparr>event_id = Suc (seq_analytics d), event_type = et,
                       event_user = u, metadata = md\<rparr>],
       seq_analytics := Suc (seq_analytics d)\<rparr>"

definition insert_activity ::
  "connection \<Rightarrow> string \<Rightarrow> string \<Rightarrow> string \<Rightarrow> int \<Rightarrow> database \<Rightarrow> error + database" where
  \<comment> \<open>\<open>INSERT INTO user_activities\<close>: \<open>user_id\<close> references \<open>users(username)\<close>.\<close>
  "insert_activity conn u ty de pts d =
     (if foreign_keys conn \<and> u \<notin> set (map username (users d))
      then Inl (IntegrityError ''FOREIGN KEY constraint failed'')
      else Inr (d\<lparr>user_activities := user_activities d @
                     [\<lparr>activity_id = Suc (seq_activities d), user_id = u, activity_type = ty,
                       activity_description = de, points_earned = pts\<rparr>],
                   seq_activities := Suc (seq_activities d)\<rparr>))"

section \<open>The service (\<open>BackendService\<close>)\<close>

definition log_event ::
  "string \<Rightarrow> string option \<Rightarrow> (string \<times> json) list option \<Rightarrow> world \<Rightarrow> world" where
  "log_event et u md w =
     (case get_connection w of
        (Inl e, w1) \<Rightarrow> w1
      | (Inr conn, w1) \<Rightarrow> w1\<lparr>db := insert_analytics et u md (db w1)\<rparr>)"

definition record_user_activity :: "string \<Rightarrow> string \<Rightarrow> string \<Rightarrow> int \<Rightarrow> world \<Rightarrow> world" where
  "record_user_activity u ty de pts w =
     (case get_connection w of
        (Inl e, w1) \<Rightarrow> w1
      | (Inr conn, w1) \<Rightarrow>
          (case insert_activity conn u ty de pts (db w1) of
             Inl e \<Rightarrow> w1
           | Inr d \<Rightarrow> w1\<lparr>db := d\<rparr>))"

text \<open>
  The keyword arguments of \<open>create_user\<close>; \<open>None\<close> is a keyword the caller left out.
\<close>

record user_kwargs =
  kw_preferred_language :: "string option"
  kw_full_name :: "string option"
  kw_email :: "string option"
  kw_age :: "int option"

definition kwargs_get :: "'a option \<Rightarrow> 'a \<Rightarrow> 'a" where
  \<comment> \<open>\<open>kwargs.get(key, default)\<close>\<close>
  "kwargs_get v d = (case v of None \<Rightarrow> d | Some x \<Rightarrow> x)"

definition create_user ::
  "string \<Rightarrow> string \<Rightarrow> user_kwargs \<Rightarrow> nat \<Rightarrow> world \<Rightarrow> (bool \<times> string) \<times> world" where
  "create_user username0 password0 kwargs now w =
     (let username = strip username0; password = strip password0 in
      if username = [] \<or> password = []
      then ((False, ''Username and password are required''), w)
      else if length username < 3
      then ((False, ''Username must be at least 3 characters''), w)
      else if length password < 3
      then ((False, ''Password must be at least 3 characters''), w)
      else if \<not> isalnum (replace CHR ''-'' [] (replace CHR ''_'' [] username))
      then ((False, ''Username can only contain letters, numbers, underscore, and hyphen''), w)
      else
        (case get_connection w of
           (Inl e, w1) \<Rightarrow> ((False, ''Error creating user: '' @ str_error e), w1)
         | (Inr conn, w1) \<Rightarrow>
             (case insert_user conn username password
                     (kwargs_get (kw_preferred_language kwargs) ''en'')
                     (or_None (strip (kwargs_get (kw_full_name kwargs) [])))
                     (or_None (strip (kwargs_get (kw_email kwargs) [])))
                     (if kwargs_get (kw_age kwargs) 0 > 12 then kw_age kwargs else None)
                     now (db w1) of
                Inl (IntegrityError m) \<Rightarrow> ((False, ''Username already exists''), w1)
              | Inl (OperationalError m) \<Rightarrow> ((False, ''Error creating user: '' @ m), w1)
              | Inr d \<Rightarrow>
                  ((True, ''User created successfully''),
                   log_event ''user_registered'' (Some username)
                     (Some [(''language'', JStr (kwargs_get (kw_preferred_language kwargs) ''en'')),
                            (''has_full_name'', JBool (truthy (kw_full_name kwargs))),
                            (''has_email'', JBool (truthy (kw_email kwargs)))])
                     (w1\<lparr>db := d\<rparr>)))))"

definition authenticate_user :: "string \<Rightarrow> string \<Rightarrow> nat \<Rightarrow> world \<Rightarrow> bool \<times> world" where
  "authenticate_user u p now w =
     (case get_connection w of
        (Inl e, w1) \<Rightarrow> (False, w1)
      | (Inr conn, w1) \<Rightarrow>
          (case filter (\<lambda>r. username r = u \<and> password r = p \<and> is_active r) (users (db w1)) of
             [] \<Rightarrow> (False, w1)
           | r # rs \<Rightarrow>
               (True,
                log_event ''user_login'' (Some u) None
                  (w1\<lparr>db := (db w1)\<lparr>users :=
                     map (\<lambda>r. if username r = u then r\<lparr>last_login := Some now\<rparr> else r)
                       (users (db w1))\<rparr>\<rparr>))))"

definition insert_image ::
  "connection \<Rightarrow> string \<Rightarrow> string \<Rightarrow> string option \<Rightarrow> string \<Rightarrow> string \<Rightarrow> string \<Rightarrow>
   image_kwargs \<Rightarrow> nat \<Rightarrow> database \<Rightarrow> error + database" where
  \<comment> \<open>\<open>INSERT INTO images\<close>: \<open>id\<close> is the primary key, \<open>uploaded_by\<close> references
      \<open>users(username)\<close>, \<open>label_count\<close> takes its default 0.\<close>
  "insert_image conn iid ti de ca pa up kw now d =
     (if iid \<in> set (map img_id (images d))
      then Inl (IntegrityError ''UNIQUE constraint failed: images.id'')
      else if foreign_keys conn \<and> up \<notin> set (map username (users d))
      then Inl (IntegrityError ''FOREIGN KEY constraint failed'')
      else Inr (d\<lparr>images := images d @ [\<lparr>img_id = iid, title = ti, description = de,
                     category = ca, image_path = pa, uploaded_by = up, uploaded_at = now,
                     meta = kw, label_count = 0\<rparr>]\<rparr>))"

definition has_location :: "real option \<Rightarrow> bool" where
  \<comment> \<open>\<open>bool(kwargs.get('latitude'))\<close>\<close>
  "has_location v = (case v of None \<Rightarrow> False | Some x \<Rightarrow> x \<noteq> 0)"

definition json_int :: "int option \<Rightarrow> json" where
  "json_int v = (case v of None \<Rightarrow> JNull | Some n \<Rightarrow> JInt n)"

definition add_image ::
  "string \<Rightarrow> string option \<Rightarrow> string \<Rightarrow> string \<Rightarrow> string \<Rightarrow> image_kwargs \<Rightarrow> string \<Rightarrow> nat \<Rightarrow>
   world \<Rightarrow> (error + string) \<times> world" where
  \<comment> \<open>\<open>uuid\<close> is the value \<open>str(uuid.uuid4())\<close> draws, \<open>now\<close> what \<open>datetime.now()\<close> reads.\<close>
  "add_image ti de ca pa up kwargs uuid now w =
     (case get_connection w of
        (Inl e, w1) \<Rightarrow> (Inl e, w1)
      | (Inr conn, w1) \<Rightarrow>
          (case insert_image conn uuid ti de ca pa up kwargs now (db w1) of
             Inl e \<Rightarrow> (Inl e, w1)
           | Inr d \<Rightarrow>
               (Inr uuid,
                record_user_activity up ''image_upload'' (''Uploaded image: '' @ ti) 10
                  (log_event ''image_uploaded'' (Some up)
                     (Some [(''image_id'', JStr uuid), (''category'', JStr ca),
                            (''has_location'', JBool (has_location (latitude kwargs))),
                            (''file_size'', json_int (file_size kwargs))])
                     (w1\<lparr>db := d\<rparr>)))))"

definition same_key :: "string \<Rightarrow> string \<Rightarrow> string \<Rightarrow> label \<Rightarrow> bool" where
  \<comment> \<open>The columns of \<open>UNIQUE(image_id, text, language)\<close>.\<close>
  "same_key iid tx la l = (image_id l = iid \<and> label_text l = tx \<and> language l = la)"

definition insert_or_replace_label ::
  "connection \<Rightarrow> string \<Rightarrow> string \<Rightarrow> string \<Rightarrow> string \<Rightarrow> nat \<Rightarrow> database \<Rightarrow> error + database" where
  \<comment> \<open>\<open>INSERT OR REPLACE INTO labels\<close>: a row with the same unique key is deleted before
      the new row, with a fresh \<open>AUTOINCREMENT\<close> id, is inserted; the foreign keys are
      checked on a connection that has them on.\<close>
  "insert_or_replace_label conn iid tx la by now d =
     (if foreign_keys conn \<and>
         (iid \<notin> set (map img_id (images d)) \<or> by \<notin> set (map username (users d)))
      then Inl (IntegrityError ''FOREIGN KEY constraint failed'')
      else Inr (d\<lparr>labels := filter (\<lambda>l. \<not> same_key iid tx la l) (labels d) @
                     [\<lparr>label_id = Suc (seq_labels d), image_id = iid, label_text = tx,
                       language = la, added_by = by, added_at = now\<rparr>],
                   seq_labels := Suc (seq_labels d)\<rparr>))"

definition count_labels :: "string \<Rightarrow> database \<Rightarrow> nat" where
  \<comment> \<open>\<open>SELECT COUNT(*) FROM labels WHERE image_id = ?\<close>\<close>
  "count_labels iid d = length (filter (\<lambda>l. image_id l = iid) (labels d))"

definition update_label_count :: "string \<Rightarrow> database \<Rightarrow> database" where
  \<comment> \<open>\<open>UPDATE images SET label_count = (SELECT COUNT(*) ...) WHERE id = ?\<close>\<close>
  "update_label_count iid d =
     d\<lparr>images := map (\<lambda>i. if img_id i = iid then i\<lparr>label_count := count_labels iid d\<rparr> else i)
                     (images d)\<rparr>"

definition add_label ::
  "string \<Rightarrow> string \<Rightarrow> string \<Rightarrow> string \<Rightarrow> nat \<Rightarrow> world \<Rightarrow> bool \<times> world" where
  "add_label iid tx la by now w =
     (case get_connection w of
        (Inl e, w1) \<Rightarrow> (False, w1)
      | (Inr conn, w1) \<Rightarrow>
          (case insert_or_replace_label conn iid tx la by now (db w1) of
             Inl e \<Rightarrow> (False, w1)
           | Inr d \<Rightarrow>
               (True,
                record_user_activity by ''label_add''
                  (''Added label: '' @ take 50 tx @ ''...'') 5
                  (log_event ''label_added'' (Some by)
                     (Some [(''image_id'', JStr iid), (''language'', JStr la),
                            (''text_length'', JInt (int (length tx)))])
                     (w1\<lparr>db := update_label_count iid d\<rparr>)))))"

section \<open>Reachable states\<close>

text \<open>
  The states the service can be in: it starts on an empty database, every mutating
  operation may run with any arguments, and between operations the files on disk and the
  coming connection outcomes may be anything (the read operations change nothing else).
\<close>

inductive reachable :: "world \<Rightarrow> bool" where
  start: "reachable \<lparr>db = empty_database, files = F, faults = fs\<rparr>"
| environment: "reachable w \<Longrightarrow> reachable (w\<lparr>files := F, faults := fs\<rparr>)"
| register: "reachable w \<Longrightarrow> reachable (snd (create_user u p kwargs now w))"
| login: "reachable w \<Longrightarrow> reachable (snd (authenticate_user u p now w))"
| upload: "reachable w \<Longrightarrow> reachable (snd (add_image ti de ca pa up kwargs uuid now w))"
| annotate: "reachable w \<Longrightarrow> reachable (snd (add_label iid tx la by now w))"


section \<open>Example inputs\<close>

definition no_kwargs :: user_kwargs where
  "no_kwargs = \<lparr>kw_preferred_language = None, kw_full_name = None, kw_email = None,
     kw_age = None\<rparr>"

definition fresh_world :: world where
  "fresh_world = \<lparr>db = empty_database, files = {}, faults = []\<rparr>"


section \<open>Facts about strings\<close>








definition allowed_char :: "char \<Rightarrow> bool" where
  \<comment> \<open>A letter, a digit, underscore or hyphen.\<close>
  "allowed_char c = (isalnum_char c \<or> c = CHR ''_'' \<or> c = CHR ''-'')"





section \<open>Connections\<close>

definition connects :: "world \<Rightarrow> bool" where
  "connects w = (case fst (get_connection w) of Inl e \<Rightarrow> False | Inr c \<Rightarrow> True)"

lemma get_connection_cases:
  obtains (fails) m w1 where "get_connection w = (Inl (OperationalError m), w1)"
      "db w1 = db w" "files w1 = files w" "\<not> connects w"
  | (works) w1 where "get_connection w = (Inr \<lparr>foreign_keys = False\<rparr>, w1)"
      "db w1 = db w" "files w1 = files w" "connects w"
  by (cases "faults w"; cases "hd (faults w)")
     (auto simp: get_connection_def connects_def split: list.splits option.splits)

lemma log_event_tables [simp]:
  "users (db (log_event et u md w)) = users (db w)"
  "images (db (log_event et u md w)) = images (db w)"
  "labels (db (log_event et u md w)) = labels (db w)"
  "user_activities (db (log_event et u md w)) = user_activities (db w)"
  by (cases w rule: get_connection_cases; simp add: log_event_def insert_analytics_def)+

lemma record_user_activity_tables [simp]:
  "users (db (record_user_activity u ty de pts w)) = users (db w)"
  "images (db (record_user_activity u ty de pts w)) = images (db w)"
  "labels (db (record_user_activity u ty de pts w)) = labels (db w)"
  by (cases w rule: get_connection_cases;
      simp add: record_user_activity_def insert_activity_def)+


section \<open>Registration\<close>






lemmas register_eval = strip_def isspace_def code_def isalnum_char_def allowed_char_def create_user_def
  get_connection_def connects_def fresh_world_def no_kwargs_def empty_database_def insert_user_def
  log_event_def insert_analytics_def isalnum_def replace_def kwargs_get_def or_None_def truthy_def Let_def







text \<open>
  A username of underscores and hyphens alone is refused by the character check, since
  \<open>isalnum\<close> is false on the empty string that is left of it.
\<close>

lemma create_user_marks_only:
  "fst (create_user ''___'' ''secret'' no_kwargs 0 fresh_world)
     = (False, ''Username can only contain letters, numbers, underscore, and hyphen'')"
  by (simp add: register_eval)







section \<open>Labels\<close>

definition label_count_ok :: "database \<Rightarrow> bool" where
  \<comment> \<open>Every image row stores the number of label rows that reference it.\<close>
  "label_count_ok d = list_all (\<lambda>i. label_count i = count_labels (img_id i) d) (images d)"

definition label_key :: "label \<Rightarrow> string \<times> string \<times> string" where
  "label_key l = (image_id l, label_text l, language l)"

text \<open>A sequence of \<open>add_label\<close> calls, each with its own arguments and clock reading.\<close>

fun add_labels :: "(string \<times> string \<times> string \<times> string \<times> nat) list \<Rightarrow> world \<Rightarrow> world" where
  "add_labels [] w = w"
| "add_labels ((iid, tx, la, by, now) # ops) w = add_labels ops (snd (add_label iid tx la by now w))"

definition no_image_kwargs :: image_kwargs where
  "no_image_kwargs = \<lparr>latitude = None, longitude = None, city = None, country = None,
     location_method = None, file_size = None, image_width = None, image_height = None\<rparr>"

definition demo_world :: world where
  "demo_world =
     snd (add_label ''img-1'' ''cat'' ''en'' ''alice123'' 3
       (snd (add_image ''Cat'' None ''Animals'' ''data/images/cat.jpg'' ''alice123''
               no_image_kwargs ''img-1'' 2
          (snd (create_user ''alice123'' ''pass123'' no_kwargs 1 fresh_world)))))"

lemma same_key_iff: "same_key iid tx la l \<longleftrightarrow> label_key l = (iid, tx, la)"
  by (auto simp: same_key_def label_key_def)

lemma same_key_eq: "same_key iid tx la = (\<lambda>l. label_key l = (iid, tx, la))"
  by (rule ext) (rule same_key_iff)

lemma add_label_cases:
  obtains (refused) "fst (add_label iid tx la by now w) = False"
      "db (snd (add_label iid tx la by now w)) = db w" "\<not> connects w"
  | (added) "fst (add_label iid tx la by now w) = True" "connects w"
      "labels (db (snd (add_label iid tx la by now w))) =
         filter (\<lambda>l. \<not> same_key iid tx la l) (labels (db w)) @
           [\<lparr>label_id = Suc (seq_labels (db w)), image_id = iid, label_text = tx,
             language = la, added_by = by, added_at = now\<rparr>]"
      "images (db (snd (add_label iid tx la by now w))) =
         map (\<lambda>i. if img_id i = iid
                   then i\<lparr>label_count := length (filter (\<lambda>l. image_id l = iid)
                          (labels (db (snd (add_label iid tx la by now w)))))\<rparr>
                   else i) (images (db w))"
      "users (db (snd (add_label iid tx la by now w))) = users (db w)"
  by (cases w rule: get_connection_cases)
     (auto simp: add_label_def insert_or_replace_label_def update_label_count_def count_labels_def)

lemma count_other:
  assumes "j \<noteq> iid"
  shows "length (filter (\<lambda>l. image_id l = j) (filter (\<lambda>l. \<not> same_key iid tx la l) ls @ [n\<lparr>image_id := iid\<rparr>]))
       = length (filter (\<lambda>l. image_id l = j) ls)"
  using assms by (induction ls) (auto simp: same_key_def)

lemma add_label_keeps_count:
  assumes "label_count_ok (db w)"
  shows "label_count_ok (db (snd (add_label iid tx la by now w)))"
proof (cases iid tx la "by" now w rule: add_label_cases)
  case refused
  with assms show ?thesis by simp
next
  case added
  let ?w = "snd (add_label iid tx la by now w)"
  have "label_count i = count_labels (img_id i) (db ?w)" if "i \<in> set (images (db ?w))" for i
  proof -
    from that added(4) obtain i0 where i0: "i0 \<in> set (images (db w))"
      and i: "i = (if img_id i0 = iid then i0\<lparr>label_count := length (filter (\<lambda>l. image_id l = iid) (labels (db ?w)))\<rparr> else i0)"
      by auto
    show ?thesis
    proof (cases "img_id i0 = iid")
      case True
      with i show ?thesis by (simp add: count_labels_def)
    next
      case False
      from i0 assms have "label_count i0 = count_labels (img_id i0) (db w)"
        by (simp add: label_count_ok_def list_all_iff)
      moreover have "count_labels (img_id i0) (db ?w) = count_labels (img_id i0) (db w)"
        unfolding count_labels_def added(3)
        using count_other [OF False, of tx la "labels (db w)" "\<lparr>label_id = Suc (seq_labels (db w)), image_id = iid, label_text = tx,
             language = la, added_by = by, added_at = now\<rparr>"] by simp
      ultimately show ?thesis using i False by simp
    qed
  qed
  then show ?thesis by (simp add: label_count_ok_def list_all_iff)
qed

lemma add_labels_keep_count:
  "label_count_ok (db w) \<Longrightarrow> label_count_ok (db (add_labels ops w))"
proof (induction ops arbitrary: w)
  case Nil
  then show ?case by simp
next
  case (Cons a ops)
  obtain iid tx la "by" now where a: "a = (iid, tx, la, by, now)" by (cases a)
  from Cons.prems have "label_count_ok (db (snd (add_label iid tx la by now w)))"
    by (rule add_label_keeps_count)
  then show ?case unfolding a by (simp add: Cons.IH)
qed


lemmas service_eval = register_eval add_label_def add_image_def insert_image_def
  insert_or_replace_label_def update_label_count_def count_labels_def same_key_def
  record_user_activity_def insert_activity_def has_location_def json_int_def
  no_image_kwargs_def authenticate_user_def

text \<open>The database of \<open>demo_world\<close>, written out.\<close>

definition demo_db :: database where
  "demo_db =
     \<lparr>users = [\<lparr>uid = 1, username = ''alice123'', password = ''pass123'',
                 preferred_language = ''en'', full_name = None, email = None, age = None,
                 created_at = 1, last_login = None, is_active = True\<rparr>],
       images = [\<lparr>img_id = ''img-1'', title = ''Cat'', description = None,
                  category = ''Animals'', image_path = ''data/images/cat.jpg'',
                  uploaded_by = ''alice123'', uploaded_at = 2, meta = no_image_kwargs,
                  label_count = 1\<rparr>],
       labels = [\<lparr>label_id = 1, image_id = ''img-1'', label_text = ''cat'', language = ''en'',
                  added_by = ''alice123'', added_at = 3\<rparr>],
       analytics =
         [\<lparr>event_id = 1, event_type = ''user_registered'', event_user = Some ''alice123'',
            metadata = Some [(''language'', JStr ''en''), (''has_full_name'', JBool False),
                             (''has_email'', JBool False)]\<rparr>,
          \<lparr>event_id = 2, event_type = ''image_uploaded'', event_user = Some ''alice123'',
            metadata = Some [(''image_id'', JStr ''img-1''), (''category'', JStr ''Animals''),
                             (''has_location'', JBool False), (''file_size'', JNull)]\<rparr>,
          \<lparr>event_id = 3, event_type = ''label_added'', event_user = Some ''alice123'',
            metadata = Some [(''image_id'', JStr ''img-1''), (''language'', JStr ''en''),
                             (''text_length'', JInt 3)]\<rparr>],
       user_activities =
         [\<lparr>activity_id = 1, user_id = ''alice123'', activity_type = ''image_upload'',
            activity_description = ''Uploaded image: Cat'', points_earned = 10\<rparr>,
          \<lparr>activity_id = 2, user_id = ''alice123'', activity_type = ''label_add'',
            activity_description = ''Added label: cat...'', points_earned = 5\<rparr>],
       seq_users = 1, seq_labels = 1, seq_analytics = 3, seq_activities = 2\<rparr>"

lemma demo_world_value: "demo_world = \<lparr>db = demo_db, files = {}, faults = []\<rparr>"
  by (simp add: demo_world_def demo_db_def service_eval)


text \<open>
  C1. After any sequence of \<open>add_label\<close> calls from a state in which every image's stored
  \<open>label_count\<close> equals the number of label rows with its id, every image's stored
  \<open>label_count\<close> again equals the number of label rows with its id.
\<close>

theorem label_count_maintained:
  assumes "label_count_ok (db w)"
  shows "\<forall>i\<in>set (images (db (add_labels ops w))).
           label_count i
             = length (filter (\<lambda>l. image_id l = img_id i) (labels (db (add_labels ops w))))"
  using add_labels_keep_count [OF assms, of ops]
  by (simp add: label_count_ok_def list_all_iff count_labels_def)

theorem label_count_maintained_witness:
  "label_count_ok (db demo_world)
   \<and> label_count_ok (db (add_labels
        [(''img-1'', ''billi'', ''hi'', ''alice123'', 4), (''img-1'', ''cat'', ''en'', ''bob'', 5),
         (''img-2'', ''dog'', ''en'', ''bob'', 6)] demo_world))
   \<and> map label_count (images (db (add_labels
        [(''img-1'', ''billi'', ''hi'', ''alice123'', 4), (''img-1'', ''cat'', ''en'', ''bob'', 5),
         (''img-2'', ''dog'', ''en'', ''bob'', 6)] demo_world))) = [2]"
  using label_count_maintained [of demo_world
        "[(''img-1'', ''billi'', ''hi'', ''alice123'', 4), (''img-1'', ''cat'', ''en'', ''bob'', 5),
         (''img-2'', ''dog'', ''en'', ''bob'', 6)]"]
  by (simp add: demo_world_value demo_db_def service_eval label_count_ok_def)

lemma labels_distinct_step:
  assumes "distinct (map label_key (labels (db w)))"
  shows "distinct (map label_key (labels (db (snd (add_label iid tx la by now w)))))"
proof (cases iid tx la "by" now w rule: add_label_cases)
  case refused
  with assms show ?thesis by simp
next
  case added
  from assms have "distinct (map label_key (filter (\<lambda>l. \<not> same_key iid tx la l) (labels (db w))))"
    by (rule distinct_map_filter)
  then show ?thesis unfolding added(3)
    by (auto simp: same_key_iff label_key_def)
qed

lemma create_user_tables:
  "labels (db (snd (create_user u p kwargs now w))) = labels (db w)"
  "images (db (snd (create_user u p kwargs now w))) = images (db w)"
  by (cases w rule: get_connection_cases;
      auto simp: create_user_def insert_user_def Let_def)+

lemma authenticate_user_tables:
  "labels (db (snd (authenticate_user u p now w))) = labels (db w)"
  "images (db (snd (authenticate_user u p now w))) = images (db w)"
  by (cases w rule: get_connection_cases;
      auto simp: authenticate_user_def split: list.splits)+

lemma add_image_labels:
  "labels (db (snd (add_image ti de ca pa up kwargs uuid now w))) = labels (db w)"
  by (cases w rule: get_connection_cases)
     (auto simp: add_image_def insert_image_def)

lemma reachable_labels_distinct:
  "reachable w \<Longrightarrow> distinct (map label_key (labels (db w)))"
proof (induction rule: reachable.induct)
  case (start F fs)
  show ?case by (simp add: empty_database_def)
next
  case (annotate w iid tx la "by" now)
  then show ?case by (simp add: labels_distinct_step)
qed (simp_all add: create_user_tables authenticate_user_tables add_image_labels)

lemma add_label_replaces:
  assumes "connects w"
  shows "fst (add_label iid tx la by now w)
    \<and> filter (same_key iid tx la) (labels (db (snd (add_label iid tx la by now w))))
        = [\<lparr>label_id = Suc (seq_labels (db w)), image_id = iid, label_text = tx,
            language = la, added_by = by, added_at = now\<rparr>]
    \<and> filter (\<lambda>l. \<not> same_key iid tx la l) (labels (db (snd (add_label iid tx la by now w))))
        = filter (\<lambda>l. \<not> same_key iid tx la l) (labels (db w))"
proof (cases iid tx la "by" now w rule: add_label_cases)
  case refused
  with assms show ?thesis by simp
next
  case added
  show ?thesis unfolding added(3) using added(1) by (simp add: same_key_def)
qed

lemma length_replace:
  assumes "distinct (map f xs)" and "k \<in> set (map f xs)"
  shows "Suc (length (filter (\<lambda>x. f x \<noteq> k) xs)) = length xs"
  using assms
proof (induction xs)
  case Nil
  then show ?case by simp
next
  case (Cons a xs)
  show ?case
  proof (cases "f a = k")
    case True
    with Cons.prems have "k \<notin> f ` set xs" by simp
    then have "\<forall>x\<in>set xs. f x \<noteq> k" by blast
    then have "filter (\<lambda>x. f x \<noteq> k) xs = xs" by simp
    with True show ?thesis by simp
  next
    case False
    with Cons show ?thesis by auto
  qed
qed



lemma demo_world_reachable: "reachable demo_world"
  unfolding demo_world_def fresh_world_def
  by (intro reachable.annotate reachable.upload reachable.register reachable.start)


text \<open>
  C2. In every reachable state no two label rows share the triple (image id, text,
  language); and \<open>add_label\<close> on a triple that is stored, with a working connection,
  succeeds, leaves the number of label rows as it was, and leaves as the only row of that
  triple the new one (new id, the new contributor and time).
\<close>

theorem labels_unique:
  assumes "reachable w"
  shows "distinct (map label_key (labels (db w)))
   \<and> (connects w \<and> (iid, tx, la) \<in> set (map label_key (labels (db w))) \<longrightarrow>
        fst (add_label iid tx la by now w)
        \<and> length (labels (db (snd (add_label iid tx la by now w)))) = length (labels (db w))
        \<and> filter (\<lambda>l. label_key l = (iid, tx, la))
             (labels (db (snd (add_label iid tx la by now w))))
            = [\<lparr>label_id = Suc (seq_labels (db w)), image_id = iid, label_text = tx,
                language = la, added_by = by, added_at = now\<rparr>])"
proof (intro conjI impI)
  from assms show d: "distinct (map label_key (labels (db w)))"
    by (rule reachable_labels_distinct)
  assume a: "connects w \<and> (iid, tx, la) \<in> set (map label_key (labels (db w)))"
  let ?w = "snd (add_label iid tx la by now w)"
  from a add_label_replaces [of w iid tx la "by" now]
  show "fst (add_label iid tx la by now w)" by simp
  from a add_label_replaces [of w iid tx la "by" now]
  show "filter (\<lambda>l. label_key l = (iid, tx, la)) (labels (db ?w))
            = [\<lparr>label_id = Suc (seq_labels (db w)), image_id = iid, label_text = tx,
                language = la, added_by = by, added_at = now\<rparr>]"
    by (simp add: same_key_eq)
  from a have "labels (db ?w) = filter (\<lambda>l. \<not> same_key iid tx la l) (labels (db w)) @
           [\<lparr>label_id = Suc (seq_labels (db w)), image_id = iid, label_text = tx,
             language = la, added_by = by, added_at = now\<rparr>]"
    by (cases iid tx la "by" now w rule: add_label_cases) simp_all
  then have "length (labels (db ?w))
     = Suc (length (filter (\<lambda>l. label_key l \<noteq> (iid, tx, la)) (labels (db w))))"
    by (simp add: same_key_iff)
  also have "\<dots> = length (labels (db w))"
    using d a by (simp add: length_replace)
  finally show "length (labels (db ?w)) = length (labels (db w))" .
qed

theorem labels_unique_witness:
  "reachable demo_world \<and> connects demo_world
   \<and> (''img-1'', ''cat'', ''en'') \<in> set (map label_key (labels (db demo_world)))
   \<and> distinct (map label_key (labels (db demo_world)))
   \<and> fst (add_label ''img-1'' ''cat'' ''en'' ''bob'' 9 demo_world)
   \<and> length (labels (db (snd (add_label ''img-1'' ''cat'' ''en'' ''bob'' 9 demo_world)))) = 1
   \<and> map added_by (labels (db (snd (add_label ''img-1'' ''cat'' ''en'' ''bob'' 9 demo_world))))
       = [''bob'']"
  using labels_unique [OF demo_world_reachable, of "''img-1''" "''cat''" "''en''" "''bob''" 9]
    demo_world_reachable
  by (simp add: demo_world_value demo_db_def service_eval label_key_def)


text \<open>
  C5 does not hold of the code. The schema declares the foreign keys and
  \<open>init_database\<close> turns their enforcement on, but only for its own connection;
  \<open>add_label\<close> works on a fresh connection, where nothing checks them. On the empty
  database, \<open>add_label\<close> with an image id and a contributor that do not exist returns
  true and stores the row.
\<close>

theorem add_label_orphan:
  "images (db fresh_world) = [] \<and> users (db fresh_world) = []
   \<and> fst (add_label ''no-such-image'' ''cat'' ''en'' ''ghost'' 1 fresh_world)
   \<and> labels (db (snd (add_label ''no-such-image'' ''cat'' ''en'' ''ghost'' 1 fresh_world)))
       = [\<lparr>label_id = 1, image_id = ''no-such-image'', label_text = ''cat'', language = ''en'',
           added_by = ''ghost'', added_at = 1\<rparr>]
   \<and> images (db (snd (add_label ''no-such-image'' ''cat'' ''en'' ''ghost'' 1 fresh_world))) = []
   \<and> users (db (snd (add_label ''no-such-image'' ''cat'' ''en'' ''ghost'' 1 fresh_world))) = []"
  by (simp add: service_eval)



section \<open>User statistics\<close>

definition total_points :: "string \<Rightarrow> database \<Rightarrow> int" where
  \<comment> \<open>\<open>SELECT COALESCE(SUM(points_earned), 0) FROM user_activities WHERE user_id = ?\<close>\<close>
  "total_points u d = sum_list (map points_earned (filter (\<lambda>a. user_id a = u) (user_activities d)))"

definition user_rank :: "string \<Rightarrow> database \<Rightarrow> int" where
  \<comment> \<open>\<open>SELECT COUNT(*) + 1\<close> over the groups of \<open>GROUP BY user_id\<close> whose sum is greater.\<close>
  "user_rank u d =
     int (length (filter (\<lambda>v. total_points v d > total_points u d)
                    (remdups (map user_id (user_activities d))))) + 1"

definition get_user_stats :: "string \<Rightarrow> world \<Rightarrow> (string \<times> int) list \<times> world" where
  "get_user_stats u w =
     (case get_connection w of
        (Inl e, w1) \<Rightarrow> ([], w1)
      | (Inr conn, w1) \<Rightarrow>
          ([(''images_uploaded'',
               int (length (filter (\<lambda>i. uploaded_by i = u) (images (db w1))))),
            (''labels_added'',
               int (length (filter (\<lambda>l. added_by l = u) (labels (db w1))))),
            (''languages_contributed'',
               int (length (remdups (map language
                      (filter (\<lambda>l. added_by l = u) (labels (db w1))))))),
            (''categories_contributed'',
               int (length (remdups (map category
                      (filter (\<lambda>i. uploaded_by i = u) (images (db w1))))))),
            (''total_points'', total_points u (db w1)),
            (''user_rank'', user_rank u (db w1))], w1))"

lemma user_rank_card:
  "user_rank u d = 1 + int (card {v \<in> user_id ` set (user_activities d).
                                 v \<noteq> u \<and> total_points v d > total_points u d})"
proof -
  let ?xs = "remdups (map user_id (user_activities d))"
  let ?P = "\<lambda>v. total_points v d > total_points u d"
  have "distinct (filter ?P ?xs)" by simp
  then have 1: "length (filter ?P ?xs) = card (set (filter ?P ?xs))"
    by (rule distinct_card [symmetric])
  have 2: "set (filter ?P ?xs) = {v \<in> user_id ` set (user_activities d). v \<noteq> u \<and> ?P v}"
    by auto
  have "length (filter ?P ?xs)
      = card {v \<in> user_id ` set (user_activities d). v \<noteq> u \<and> ?P v}"
    by (simp only: 1 2)
  then show ?thesis unfolding user_rank_def by linarith
qed

lemma total_points_none:
  "u \<notin> user_id ` set (user_activities d) \<Longrightarrow> total_points u d = 0"
proof -
  assume "u \<notin> user_id ` set (user_activities d)"
  then have "filter (\<lambda>a. user_id a = u) (user_activities d) = []"
    by (auto simp: filter_empty_conv)
  then show ?thesis by (simp add: total_points_def)
qed

lemma total_points_nonneg:
  "\<forall>a\<in>set (user_activities d). 0 \<le> points_earned a \<Longrightarrow> 0 \<le> total_points u d"
  by (auto simp: total_points_def intro!: sum_list_nonneg)

lemma greater_users:
  assumes "\<forall>a\<in>set (user_activities d). 0 \<le> points_earned a"
  shows "{v. v \<noteq> u \<and> total_points v d > total_points u d}
       = {v \<in> user_id ` set (user_activities d). v \<noteq> u \<and> total_points v d > total_points u d}"
proof -
  have "v \<in> user_id ` set (user_activities d)" if "total_points v d > total_points u d" for v
  proof (rule ccontr)
    assume "v \<notin> user_id ` set (user_activities d)"
    then have "total_points v d = 0" by (rule total_points_none)
    with that total_points_nonneg [OF assms, of u] show False by simp
  qed
  then show ?thesis by auto
qed

text \<open>
  C7. With a working connection, \<open>get_user_stats\<close> returns under \<open>total_points\<close> the sum
  of the activity points recorded for the user (0 when none is recorded), and under
  \<open>user_rank\<close> one plus the number of other users of the activity ledger whose summed
  points are strictly greater; where no recorded points are negative, as in every state
  the service produces, that is one plus the number of all other names with a strictly
  greater sum.
\<close>

theorem user_stats_points_rank:
  assumes "connects w"
  shows "map_of (fst (get_user_stats u w)) ''total_points''
           = Some (\<Sum>a\<leftarrow>filter (\<lambda>a. user_id a = u) (user_activities (db w)). points_earned a)
   \<and> (u \<notin> user_id ` set (user_activities (db w)) \<longrightarrow>
        map_of (fst (get_user_stats u w)) ''total_points'' = Some 0)
   \<and> map_of (fst (get_user_stats u w)) ''user_rank''
        = Some (1 + int (card {v \<in> user_id ` set (user_activities (db w)).
                   v \<noteq> u \<and> total_points v (db w) > total_points u (db w)}))
   \<and> ((\<forall>a\<in>set (user_activities (db w)). 0 \<le> points_earned a) \<longrightarrow>
        map_of (fst (get_user_stats u w)) ''user_rank''
          = Some (1 + int (card {v. v \<noteq> u \<and> total_points v (db w) > total_points u (db w)})))"
proof -
  from assms obtain w1 where c: "get_connection w = (Inr \<lparr>foreign_keys = False\<rparr>, w1)"
    and d: "db w1 = db w"
    by (cases w rule: get_connection_cases) auto
  have p: "map_of (fst (get_user_stats u w)) ''total_points'' = Some (total_points u (db w))"
    by (simp add: get_user_stats_def c d)
  have r: "map_of (fst (get_user_stats u w)) ''user_rank'' = Some (user_rank u (db w))"
    by (simp add: get_user_stats_def c d)
  show ?thesis
  proof (intro conjI impI)
    show "map_of (fst (get_user_stats u w)) ''total_points''
           = Some (\<Sum>a\<leftarrow>filter (\<lambda>a. user_id a = u) (user_activities (db w)). points_earned a)"
      using p by (simp add: total_points_def)
    show "map_of (fst (get_user_stats u w)) ''user_rank''
        = Some (1 + int (card {v \<in> user_id ` set (user_activities (db w)).
                   v \<noteq> u \<and> total_points v (db w) > total_points u (db w)}))"
      using r by (simp add: user_rank_card)
  next
    assume "u \<notin> user_id ` set (user_activities (db w))"
    then show "map_of (fst (get_user_stats u w)) ''total_points'' = Some 0"
      using p by (simp add: total_points_none)
  next
    assume "\<forall>a\<in>set (user_activities (db w)). 0 \<le> points_earned a"
    then show "map_of (fst (get_user_stats u w)) ''user_rank''
          = Some (1 + int (card {v. v \<noteq> u \<and> total_points v (db w) > total_points u (db w)}))"
      using r by (simp add: user_rank_card greater_users)
  qed
qed



lemmas stats_eval = get_user_stats_def total_points_def user_rank_def

definition rival_world :: world where
  \<comment> \<open>\<open>demo_world\<close> after a second contributor has added one label.\<close>
  "rival_world = snd (add_label ''img-1'' ''chat'' ''fr'' ''bob'' 9 demo_world)"

lemma rival_activities:
  "map (\<lambda>a. (user_id a, points_earned a)) (user_activities (db rival_world))
     = [(''alice123'', 10), (''alice123'', 5), (''bob'', 5)]"
  by (simp add: rival_world_def demo_world_value demo_db_def service_eval)

theorem user_stats_points_rank_witness:
  "connects rival_world
   \<and> map_of (fst (get_user_stats ''bob'' rival_world)) ''total_points'' = Some 5
   \<and> map_of (fst (get_user_stats ''bob'' rival_world)) ''user_rank'' = Some 2
   \<and> card {v. v \<noteq> ''bob'' \<and> total_points v (db rival_world) > total_points ''bob'' (db rival_world)} = 1
   \<and> ''carol'' \<notin> user_id ` set (user_activities (db rival_world))
   \<and> map_of (fst (get_user_stats ''carol'' rival_world)) ''total_points'' = Some 0"
proof -
  have c: "connects rival_world"
    by (simp add: rival_world_def demo_world_value demo_db_def service_eval)
  have n: "\<forall>a\<in>set (user_activities (db rival_world)). 0 \<le> points_earned a"
    by (simp add: rival_world_def demo_world_value demo_db_def service_eval)
  have m: "''carol'' \<notin> user_id ` set (user_activities (db rival_world))"
    by (simp add: rival_world_def demo_world_value demo_db_def service_eval)
  have p: "map_of (fst (get_user_stats ''bob'' rival_world)) ''total_points'' = Some 5"
    and r: "map_of (fst (get_user_stats ''bob'' rival_world)) ''user_rank'' = Some 2"
    by (simp_all add: rival_world_def demo_world_value demo_db_def service_eval stats_eval)
  from user_stats_points_rank [OF c, of "''bob''"] n r
  have "card {v. v \<noteq> ''bob'' \<and> total_points v (db rival_world) > total_points ''bob'' (db rival_world)} = 1"
    by simp
  moreover from user_stats_points_rank [OF c, of "''carol''"] m
  have "map_of (fst (get_user_stats ''carol'' rival_world)) ''total_points'' = Some 0"
    by blast
  ultimately show ?thesis using c m p r by simp
qed



section \<open>Translations (\<open>translations.py\<close>)\<close>

text \<open>
  \<open>TRANSLATIONS\<close> is a module-level dictionary of dictionaries that \<open>add_translation\<close>
  changes at run time; the lookup takes its current value as an argument.
\<close>

type_synonym translation_table = "string \<rightharpoonup> (string \<rightharpoonup> string)"

definition cased :: "char \<Rightarrow> bool" where
  \<comment> \<open>The characters with the Unicode property Cased.\<close>
  "cased c = ((65 \<le> code c \<and> code c \<le> 90) \<or> (97 \<le> code c \<and> code c \<le> 122)
              \<or> code c \<in> {170, 181, 186}
              \<or> (192 \<le> code c \<and> code c \<le> 255 \<and> code c \<noteq> 215 \<and> code c \<noteq> 247))"

definition lower_char :: "char \<Rightarrow> char" where
  "lower_char c =
     (if (65 \<le> code c \<and> code c \<le> 90) \<or> (192 \<le> code c \<and> code c \<le> 222 \<and> code c \<noteq> 215)
      then char_of (code c + 32) else c)"

definition title_char :: "char \<Rightarrow> string" where
  \<comment> \<open>The title-case mapping; that of two characters, 181 and 255, lies above 255, and
      they are left as they are.\<close>
  "title_char c =
     (if (97 \<le> code c \<and> code c \<le> 122) \<or> (224 \<le> code c \<and> code c \<le> 254 \<and> code c \<noteq> 247)
      then [char_of (code c - 32)]
      else if code c = 223 then ''Ss'' else [c])"

fun title_from :: "bool \<Rightarrow> string \<Rightarrow> string" where
  \<comment> \<open>The loop of \<open>str.title\<close>; the flag says whether the previous character is cased.\<close>
  "title_from prev [] = []"
| "title_from prev (c # cs) =
     (if prev then [lower_char c] else title_char c) @ title_from (cased c) cs"

definition title_str :: "string \<Rightarrow> string" where
  \<comment> \<open>\<open>str.title()\<close>\<close>
  "title_str s = title_from False s"

definition humanize :: "string \<Rightarrow> string" where
  \<comment> \<open>\<open>key.replace('_', ' ').title()\<close>\<close>
  "humanize key = title_str (replace CHR ''_'' '' '' key)"

definition get_translation :: "translation_table \<Rightarrow> string \<Rightarrow> string \<Rightarrow> string option \<Rightarrow> string" where
  "get_translation tr key lang dflt =
     (case (case tr lang of None \<Rightarrow> None | Some t \<Rightarrow> t key) of
        Some v \<Rightarrow> v
      | None \<Rightarrow>
          (case (case tr ''en'' of None \<Rightarrow> Map.empty | Some t \<Rightarrow> t) key of
             Some v \<Rightarrow> v
           | None \<Rightarrow> (case dflt of
                        None \<Rightarrow> humanize key
                      | Some d \<Rightarrow> if d = [] then humanize key else d)))"

definition stored :: "translation_table \<Rightarrow> string \<Rightarrow> string \<Rightarrow> string option" where
  \<comment> \<open>The string stored for a key in a language's table, if there is one.\<close>
  "stored tr lang key = (case tr lang of None \<Rightarrow> None | Some t \<Rightarrow> t key)"

text \<open>
  C9, as amended. For every table, key, language and default, \<open>get_translation\<close> returns
  the string stored for the key in the language's table when there is one; otherwise the
  string stored for the key in the table of \<open>en\<close> when there is one; otherwise the
  caller's default when one is given and not empty; otherwise the humanized key
  (underscores to spaces, title case).
\<close>

theorem get_translation_fallback:
  "get_translation tr key lang dflt =
     (case stored tr lang key of
        Some v \<Rightarrow> v
      | None \<Rightarrow>
          (case stored tr ''en'' key of
             Some v \<Rightarrow> v
           | None \<Rightarrow> if truthy dflt then the dflt else humanize key))"
  by (auto simp: get_translation_def stored_def truthy_def split: option.splits)

definition demo_translations :: translation_table where
  "demo_translations =
     [''en'' \<mapsto> [''login'' \<mapsto> ''Login'', ''total_images'' \<mapsto> ''Total Images''],
      ''hi'' \<mapsto> [''login'' \<mapsto> ''Login (hi)'']]"

lemmas translation_eval = get_translation_def stored_def demo_translations_def humanize_def
  title_str_def replace_def cased_def lower_char_def title_char_def code_def truthy_def
  char_of_def bit_Suc_0_iff

theorem get_translation_fallback_witness:
  "get_translation demo_translations ''login'' ''hi'' None = ''Login (hi)''
   \<and> get_translation demo_translations ''total_images'' ''hi'' None = ''Total Images''
   \<and> get_translation demo_translations ''my_new_key'' ''hi'' None = ''My New Key''
   \<and> get_translation demo_translations ''my_new_key'' ''hi'' (Some ''Fallback'') = ''Fallback''"
  using get_translation_fallback [of demo_translations "''login''" "''hi''" None]
    get_translation_fallback [of demo_translations "''total_images''" "''hi''" None]
    get_translation_fallback [of demo_translations "''my_new_key''" "''hi''" None]
    get_translation_fallback [of demo_translations "''my_new_key''" "''hi''" "Some ''Fallback''"]
  by (simp add: translation_eval)

text \<open>
  The claim as worded leaves the default out: for a key that neither table holds, a call
  with a default returns the default, not the humanized key.
\<close>

theorem get_translation_default_counterexample:
  "stored demo_translations ''hi'' ''my_new_key'' = None
   \<and> stored demo_translations ''en'' ''my_new_key'' = None
   \<and> humanize ''my_new_key'' = ''My New Key''
   \<and> get_translation demo_translations ''my_new_key'' ''hi'' (Some ''Fallback'') = ''Fallback''
   \<and> get_translation demo_translations ''my_new_key'' ''hi'' (Some ''Fallback'')
        \<noteq> humanize ''my_new_key''"
  by (simp add: translation_eval)



section \<open>The archive of all images (\<open>create_images_zip\<close>)\<close>

definition rfind :: "char \<Rightarrow> string \<Rightarrow> int" where
  \<comment> \<open>\<open>s.rfind(c)\<close>: the last index of \<open>c\<close>, or -1.\<close>
  "rfind c s = (case filter (\<lambda>k. s ! k = c) (rev [0..<length s]) of
                  [] \<Rightarrow> - 1 | k # ks \<Rightarrow> int k)"

definition splitext :: "string \<Rightarrow> string \<times> string" where
  \<comment> \<open>\<open>os.path.splitext\<close> (POSIX): the extension starts at the last dot of the last path
      component, unless only dots come before it there.\<close>
  "splitext p =
     (let sepIndex = rfind CHR ''/'' p; dotIndex = rfind CHR ''.'' p in
      if dotIndex > sepIndex \<and>
         list_ex (\<lambda>k. p ! k \<noteq> CHR ''.'') [nat (sepIndex + 1)..<nat dotIndex]
      then (take (nat dotIndex) p, drop (nat dotIndex) p)
      else (p, []))"

definition archive_path :: "image \<Rightarrow> string" where
  "archive_path i =
     (category i @ ''/'' @ uploaded_by i) @ ''/'' @ take 50 (title i)
       @ snd (splitext (image_path i))"

text \<open>
  The archive is modelled by the calls \<open>zip_file.write(filename, arcname)\<close> that build it,
  in order; \<open>os.path.exists\<close> reads the set of files of the world.
\<close>

fun zip_rows :: "string set \<Rightarrow> image list \<Rightarrow> (string \<times> string) list" where
  "zip_rows fs [] = []"
| "zip_rows fs (i # rows) =
     (if image_path i \<in> fs then (image_path i, archive_path i) # zip_rows fs rows
      else zip_rows fs rows)"

definition create_images_zip :: "world \<Rightarrow> (string \<times> string) list option \<times> world" where
  "create_images_zip w =
     (case get_connection w of
        (Inl e, w1) \<Rightarrow> (None, w1)
      | (Inr conn, w1) \<Rightarrow> (Some (zip_rows (files w1) (images (db w1))), w1))"



definition gallery_world :: world where
  \<comment> \<open>Two uploads, the first with a title of 60 characters; only its file is on disk.\<close>
  "gallery_world =
     (snd (add_image ''Dog'' None ''Animals'' ''data/images/dog.png'' ''alice123''
             no_image_kwargs ''img-2'' 3
        (snd (add_image (replicate 60 CHR ''a'') None ''Animals'' ''data/images/a.tar.jpg''
                ''alice123'' no_image_kwargs ''img-1'' 2 fresh_world))))
     \<lparr>files := {''data/images/a.tar.jpg''}\<rparr>"

lemmas archive_eval = create_images_zip_def archive_path_def splitext_def rfind_def
  gallery_world_def connects_def



lemma gallery_images:
  "map (\<lambda>i. (title i, category i, uploaded_by i, image_path i)) (images (db gallery_world))
     = [(replicate 60 CHR ''a'', ''Animals'', ''alice123'', ''data/images/a.tar.jpg''),
        (''Dog'', ''Animals'', ''alice123'', ''data/images/dog.png'')]
   \<and> files gallery_world = {''data/images/a.tar.jpg''} \<and> connects gallery_world"
  by (simp add: gallery_world_def connects_def service_eval)









section \<open>Image queries (\<open>get_images\<close>)\<close>

definition ascii_lower :: "char \<Rightarrow> char" where
  "ascii_lower c = (if 65 \<le> code c \<and> code c \<le> 90 then char_of (code c + 32) else c)"

fun like_match :: "string \<Rightarrow> string \<Rightarrow> bool" where
  \<comment> \<open>\<open>text LIKE pattern\<close> of SQLite, pattern first: \<open>%\<close> stands for any run of
      characters, \<open>_\<close> for any one character, and ASCII letters match in either case.\<close>
  "like_match [] t = (t = [])"
| "like_match (p # ps) t =
     (if p = CHR ''%''
      then like_match ps t \<or> (case t of [] \<Rightarrow> False | c # cs \<Rightarrow> like_match (p # ps) cs)
      else (case t of
              [] \<Rightarrow> False
            | c # cs \<Rightarrow> (p = CHR ''_'' \<or> ascii_lower p = ascii_lower c) \<and> like_match ps cs))"


type_synonym joined = "image \<times> label option"

definition rows_of :: "label list \<Rightarrow> image \<Rightarrow> joined list" where
  \<comment> \<open>The rows of \<open>images i LEFT JOIN labels l ON i.id = l.image_id\<close> for one image.\<close>
  "rows_of ls i =
     (case filter (\<lambda>l. image_id l = img_id i) ls of
        [] \<Rightarrow> [(i, None)]
      | m # ms \<Rightarrow> map (\<lambda>l. (i, Some l)) (m # ms))"












subsection \<open>What \<open>LIKE\<close> matches\<close>

lemma like_any: "like_match ''%'' t"
  by (induction t) simp_all

lemma like_percent:
  "like_match (CHR ''%'' # q) t \<longleftrightarrow> (\<exists>a c. t = a @ c \<and> like_match q c)"
proof (induction t)
  case Nil
  show ?case by simp
next
  case (Cons x t)
  have "like_match (CHR ''%'' # q) (x # t)
      \<longleftrightarrow> like_match q (x # t) \<or> like_match (CHR ''%'' # q) t" by simp
  also have "\<dots> \<longleftrightarrow> like_match q (x # t) \<or> (\<exists>a c. t = a @ c \<and> like_match q c)"
    by (simp only: Cons.IH)
  also have "\<dots> \<longleftrightarrow> (\<exists>a c. x # t = a @ c \<and> like_match q c)"
  proof
    assume "like_match q (x # t) \<or> (\<exists>a c. t = a @ c \<and> like_match q c)"
    then show "\<exists>a c. x # t = a @ c \<and> like_match q c"
    proof
      assume "like_match q (x # t)"
      then have "x # t = [] @ (x # t) \<and> like_match q (x # t)" by simp
      then show ?thesis by blast
    next
      assume "\<exists>a c. t = a @ c \<and> like_match q c"
      then obtain a c where "t = a @ c" "like_match q c" by blast
      then have "x # t = (x # a) @ c \<and> like_match q c" by simp
      then show ?thesis by blast
    qed
  next
    assume "\<exists>a c. x # t = a @ c \<and> like_match q c"
    then obtain a c where ac: "x # t = a @ c" "like_match q c" by blast
    show "like_match q (x # t) \<or> (\<exists>a c. t = a @ c \<and> like_match q c)"
    proof (cases a)
      case Nil
      with ac show ?thesis by simp
    next
      case (Cons y a')
      with ac have "t = a' @ c" by simp
      with ac(2) show ?thesis by blast
    qed
  qed
  finally show ?case .
qed

lemma like_prefix:
  assumes "CHR ''%'' \<notin> set s" and "CHR ''_'' \<notin> set s"
  shows "like_match (s @ ''%'') t
     \<longleftrightarrow> (\<exists>b c. t = b @ c \<and> map ascii_lower b = map ascii_lower s)"
  using assms
proof (induction s arbitrary: t)
  case Nil
  show ?case by (simp add: like_any del: like_match.simps)
next
  case (Cons p ps)
  then have p: "p \<noteq> CHR ''%''" "p \<noteq> CHR ''_''"
    and ih: "\<And>t. like_match (ps @ ''%'') t
       \<longleftrightarrow> (\<exists>b c. t = b @ c \<and> map ascii_lower b = map ascii_lower ps)"
    by auto
  show ?case
  proof (cases t)
    case Nil
    with p show ?thesis by simp
  next
    case (Cons x xs)
    have "like_match ((p # ps) @ ''%'') (x # xs)
       \<longleftrightarrow> ascii_lower p = ascii_lower x \<and> like_match (ps @ ''%'') xs"
      using p by simp
    also have "\<dots> \<longleftrightarrow> ascii_lower p = ascii_lower x
         \<and> (\<exists>b c. xs = b @ c \<and> map ascii_lower b = map ascii_lower ps)"
      by (simp only: ih)
    also have "\<dots> \<longleftrightarrow> (\<exists>b c. x # xs = b @ c \<and> map ascii_lower b = map ascii_lower (p # ps))"
    proof
      assume "ascii_lower p = ascii_lower x
         \<and> (\<exists>b c. xs = b @ c \<and> map ascii_lower b = map ascii_lower ps)"
      then obtain b c where "ascii_lower p = ascii_lower x" "xs = b @ c"
        "map ascii_lower b = map ascii_lower ps" by blast
      then have "x # xs = (x # b) @ c \<and> map ascii_lower (x # b) = map ascii_lower (p # ps)"
        by simp
      then show "\<exists>b c. x # xs = b @ c \<and> map ascii_lower b = map ascii_lower (p # ps)"
        by blast
    next
      assume "\<exists>b c. x # xs = b @ c \<and> map ascii_lower b = map ascii_lower (p # ps)"
      then obtain b c where bc: "x # xs = b @ c" "map ascii_lower b = map ascii_lower (p # ps)"
        by blast
      then obtain y b' where b: "b = y # b'" by (cases b) auto
      with bc have "y = x" "xs = b' @ c" "ascii_lower x = ascii_lower p"
        "map ascii_lower b' = map ascii_lower ps" by auto
      then show "ascii_lower p = ascii_lower x
         \<and> (\<exists>b c. xs = b @ c \<and> map ascii_lower b = map ascii_lower ps)" by auto
    qed
    finally show ?thesis unfolding Cons .
  qed
qed

lemma like_substring:
  assumes "CHR ''%'' \<notin> set s" and "CHR ''_'' \<notin> set s"
  shows "like_match (''%'' @ s @ ''%'') t
     \<longleftrightarrow> (\<exists>a b c. t = a @ b @ c \<and> map ascii_lower b = map ascii_lower s)"
proof -
  have "like_match (''%'' @ s @ ''%'') t \<longleftrightarrow> (\<exists>a c. t = a @ c \<and> like_match (s @ ''%'') c)"
    using like_percent [of "s @ ''%''" t] by simp
  also have "\<dots> \<longleftrightarrow> (\<exists>a c. t = a @ c
       \<and> (\<exists>b c'. c = b @ c' \<and> map ascii_lower b = map ascii_lower s))"
    by (simp only: like_prefix [OF assms])
  also have "\<dots> \<longleftrightarrow> (\<exists>a b c. t = a @ b @ c \<and> map ascii_lower b = map ascii_lower s)"
    by blast
  finally show ?thesis .
qed


subsection \<open>What a query returns\<close>





lemma rows_of_labels:
  "List.map_filter id (map snd (rows_of ls i)) = filter (\<lambda>l. image_id l = img_id i) ls"
  by (auto simp: rows_of_def map_filter_def comp_def split: list.splits)

lemma rows_of_count:
  "length (filter (\<lambda>l. l \<noteq> None) (map snd (rows_of ls i)))
     = length (filter (\<lambda>l. image_id l = img_id i) ls)"
  by (auto simp: rows_of_def comp_def split: list.splits)




















lemma add_image_ids:
  "distinct (map img_id (images (db w))) \<Longrightarrow>
   distinct (map img_id (images (db (snd (add_image ti de ca pa up kwargs uuid now w)))))"
  by (cases w rule: get_connection_cases)
     (auto simp: add_image_def insert_image_def)

lemma add_label_ids:
  "map img_id (images (db (snd (add_label iid tx la by now w)))) = map img_id (images (db w))"
proof (cases iid tx la "by" now w rule: add_label_cases)
  case refused
  then show ?thesis by simp
next
  case added
  show ?thesis unfolding added(4) by (simp add: comp_def if_distrib cong: if_cong)
qed

lemma reachable_image_ids:
  "reachable w \<Longrightarrow> distinct (map img_id (images (db w)))"
proof (induction rule: reachable.induct)
  case (start F fs)
  show ?case by (simp add: empty_database_def)
next
  case (upload w ti de ca pa up kwargs uuid now)
  then show ?case by (simp add: add_image_ids)
qed (simp_all add: create_user_tables authenticate_user_tables add_label_ids)











end
